theory Spec2Isabelle
  imports Main
begin

section \<open>JavaScript values and built-ins used by the code\<close>

text \<open>
  The fields of a JSON request body and the arguments of the browser client are JavaScript
  values. The model keeps the scalar ones: \<^verbatim>\<open>undefined\<close> (an absent field),
  \<^verbatim>\<open>null\<close>, booleans, integral numbers and strings. Strings are lists of ASCII
  characters, numbers are mathematical integers (the identifiers of a running process stay
  far below \<^verbatim>\<open>2^53\<close>, where JavaScript numbers stop being exact).
\<close>

datatype jsval = JUndefined | JNull | JBool bool | JNum int | JStr string

text \<open>\<^verbatim>\<open>!v\<close> is \<open>\<not> truthy v\<close>.\<close>

definition truthy :: "jsval \<Rightarrow> bool" where
  "truthy v = (case v of JUndefined \<Rightarrow> False | JNull \<Rightarrow> False | JBool b \<Rightarrow> b
                | JNum n \<Rightarrow> n \<noteq> 0 | JStr s \<Rightarrow> s \<noteq> [])"

text \<open>White space and line terminators (tab, LF, VT, FF, CR, space).\<close>

definition is_ws :: "char \<Rightarrow> bool" where
  "is_ws c = (c \<in> set [CHR 0x09, CHR 0x0A, CHR 0x0B, CHR 0x0C, CHR 0x0D, CHR '' ''])"

text \<open>\<^verbatim>\<open>String.prototype.trim\<close>.\<close>

definition js_trim :: "string \<Rightarrow> string" where
  "js_trim s = rev (dropWhile is_ws (rev (dropWhile is_ws s)))"

definition digit_char :: "nat \<Rightarrow> char" where
  "digit_char d = ''0123456789'' ! d"

fun show_nat :: "nat \<Rightarrow> string" where
  "show_nat n = (if n < 10 then [digit_char n] else show_nat (n div 10) @ [digit_char (n mod 10)])"

declare show_nat.simps [simp del]

definition show_int :: "int \<Rightarrow> string" where
  "show_int i = (if i < 0 then CHR ''-'' # show_nat (nat (- i)) else show_nat (nat i))"

text \<open>\<^verbatim>\<open>String(v)\<close>, the conversion a regular expression applies to its argument.\<close>

definition js_String :: "jsval \<Rightarrow> string" where
  "js_String v = (case v of JUndefined \<Rightarrow> ''undefined'' | JNull \<Rightarrow> ''null''
      | JBool b \<Rightarrow> (if b then ''true'' else ''false'') | JNum n \<Rightarrow> show_int n | JStr s \<Rightarrow> s)"

text \<open>
  \<^verbatim>\<open>parseInt(str)\<close> with no radix: leading white space is skipped, a sign is read, a
  \<^verbatim>\<open>0x\<close> prefix selects radix 16, and the longest prefix of digits is the value. No
  digit at all gives \<^verbatim>\<open>NaN\<close>, which is \<open>None\<close> here.
\<close>

definition digit_value :: "char \<Rightarrow> nat option" where
  "digit_value c =
     (let k = (of_char c :: nat) in
      if 48 \<le> k \<and> k \<le> 57 then Some (k - 48)
      else if 97 \<le> k \<and> k \<le> 122 then Some (k - 87)
      else if 65 \<le> k \<and> k \<le> 90 then Some (k - 55)
      else None)"

definition is_digit :: "nat \<Rightarrow> char \<Rightarrow> bool" where
  "is_digit radix c = (case digit_value c of None \<Rightarrow> False | Some d \<Rightarrow> d < radix)"

definition digits_value :: "nat \<Rightarrow> string \<Rightarrow> int" where
  "digits_value radix ds =
     foldl (\<lambda>acc c. acc * int radix + (case digit_value c of None \<Rightarrow> 0 | Some d \<Rightarrow> int d)) 0 ds"

definition parseInt :: "string \<Rightarrow> int option" where
  "parseInt str =
     (let s1 = dropWhile is_ws str;
          sign = (if take 1 s1 = ''-'' then - 1 else 1 :: int);
          s2 = (if take 1 s1 = ''-'' \<or> take 1 s1 = ''+'' then drop 1 s1 else s1);
          hex = (take 2 s2 = ''0x'' \<or> take 2 s2 = ''0X'');
          radix = (if hex then 16 else 10 :: nat);
          s3 = (if hex then drop 2 s2 else s2);
          ds = takeWhile (is_digit radix) s3
      in if ds = [] then None else Some (sign * digits_value radix ds))"

text \<open>
  \<^verbatim>\<open>xs.slice(0, end)\<close>: a \<^verbatim>\<open>NaN\<close> end counts as 0, a negative end counts from the
  end of the array, and the result never reads outside the array.
\<close>

definition slice0 :: "'a list \<Rightarrow> int option \<Rightarrow> 'a list" where
  "slice0 xs e =
     (case e of
        None \<Rightarrow> []
      | Some k \<Rightarrow> if k < 0 then take (nat (int (length xs) + k)) xs else take (nat k) xs)"

text \<open>\<^verbatim>\<open>xs.findIndex(p)\<close>; \<open>None\<close> is the result \<^verbatim>\<open>-1\<close>.\<close>

fun findIndex :: "('a \<Rightarrow> bool) \<Rightarrow> 'a list \<Rightarrow> nat option" where
  "findIndex p [] = None"
| "findIndex p (x # xs) = (if p x then Some 0 else map_option Suc (findIndex p xs))"

section \<open>The user store and its responses (src/api.js)\<close>

type_synonym timestamp = string

record user =
  user_id :: int
  user_name :: string
  user_email :: string
  user_role :: string
  createdAt :: "timestamp option"
  updatedAt :: "timestamp option"

record store =
  users :: "user list"
  nextId :: int

definition initial_store :: store where
  "initial_store =
     \<lparr>users =
        [\<lparr>user_id = 1, user_name = ''Admin User'', user_email = ''admin@example.com'',
          user_role = ''admin'', createdAt = None, updatedAt = None\<rparr>,
         \<lparr>user_id = 2, user_name = ''Test User'', user_email = ''test@example.com'',
          user_role = ''user'', createdAt = None, updatedAt = None\<rparr>],
      nextId = 3\<rparr>"

text \<open>A violation names a field and carries a message.\<close>

type_synonym violation = "string \<times> string"

datatype payload =
    UserData user
  | UserList (data: "user list") (total: nat) (returned: nat)
  | ErrorMsg string
  | ValidationFailed (details: "violation list")

datatype response = Response (status: nat) (success: bool) (payload: payload)

section \<open>Server-side validation (the express-validator chains of src/api.js)\<close>

text \<open>
  A request body as the validators receive it: absent fields are \<^verbatim>\<open>undefined\<close>.
\<close>

record userData =
  name :: jsval
  email :: jsval
  role :: jsval

text \<open>
  express-validator hands every value to its standard validators and sanitizers as a
  string: \<^verbatim>\<open>undefined\<close> and \<^verbatim>\<open>null\<close> become the empty string, anything else is
  \<^verbatim>\<open>String(v)\<close>.
\<close>

definition ev_toString :: "jsval \<Rightarrow> string" where
  "ev_toString v = (case v of JUndefined \<Rightarrow> [] | JNull \<Rightarrow> [] | _ \<Rightarrow> js_String v)"

text \<open>
  The two functions of the validator library that the chains call on the email are not part
  of the repository; they are arguments of the model.
\<close>

record validator_lib =
  isEmail :: "string \<Rightarrow> bool"
  normalizeEmail :: "string \<Rightarrow> string"

definition isLength :: "nat \<Rightarrow> nat \<Rightarrow> string \<Rightarrow> bool" where
  "isLength lo hi s = (lo \<le> length s \<and> length s \<le> hi)"

text \<open>
  One chain per field. A chain marked \<^verbatim>\<open>.optional()\<close> is skipped when the field is
  \<^verbatim>\<open>undefined\<close>; otherwise a failing validator adds one error with the chain's message.
\<close>

definition name_chain :: "bool \<Rightarrow> jsval \<Rightarrow> violation list" where
  "name_chain opt v =
     (if opt \<and> v = JUndefined then []
      else if isLength 2 50 (js_trim (ev_toString v)) then []
      else [(''name'', ''Name must be between 2 and 50 characters'')])"

definition email_chain :: "validator_lib \<Rightarrow> bool \<Rightarrow> jsval \<Rightarrow> violation list" where
  "email_chain lib opt v =
     (if opt \<and> v = JUndefined then []
      else if isEmail lib (ev_toString v) then []
      else [(''email'', ''Valid email is required'')])"

definition role_chain :: "jsval \<Rightarrow> violation list" where
  "role_chain v =
     (if v = JUndefined then []
      else if ev_toString v \<in> set [''user'', ''admin''] then []
      else [(''role'', ''Role must be either user or admin'')])"

text \<open>\<^verbatim>\<open>validationResult(req).array()\<close> after the chains of POST and of PUT.\<close>

definition post_validation :: "validator_lib \<Rightarrow> userData \<Rightarrow> violation list" where
  "post_validation lib b =
     name_chain False (name b) @ email_chain lib False (email b) @ role_chain (role b)"

definition put_validation :: "validator_lib \<Rightarrow> userData \<Rightarrow> violation list" where
  "put_validation lib b =
     name_chain True (name b) @ email_chain lib True (email b) @ role_chain (role b)"

text \<open>\<^verbatim>\<open>handleValidationErrors\<close>: any error ends the request with 400 and all of them.\<close>

definition handleValidationErrors :: "violation list \<Rightarrow> response option" where
  "handleValidationErrors errors =
     (if errors \<noteq> [] then Some (Response 400 False (ValidationFailed errors)) else None)"

text \<open>
  The body as the handlers read it, after the sanitizers \<^verbatim>\<open>trim\<close> and
  \<^verbatim>\<open>normalizeEmail\<close> have rewritten it. After POST validation name and email are
  strings; after PUT validation each field is a string or absent. The role is not
  rewritten; a role that passes validation is absent or one of the two role strings, on
  which the conversion to a string changes nothing.
\<close>

record new_user =
  new_name :: string
  new_email :: string
  new_role :: "string option"

record patch =
  patch_name :: "string option"
  patch_email :: "string option"
  patch_role :: "string option"

definition opt_field :: "(string \<Rightarrow> string) \<Rightarrow> jsval \<Rightarrow> string option" where
  "opt_field f v = (if v = JUndefined then None else Some (f (ev_toString v)))"

definition post_sanitized :: "validator_lib \<Rightarrow> userData \<Rightarrow> new_user" where
  "post_sanitized lib b =
     \<lparr>new_name = js_trim (ev_toString (name b)),
      new_email = normalizeEmail lib (ev_toString (email b)),
      new_role = opt_field (\<lambda>s. s) (role b)\<rparr>"

definition put_sanitized :: "validator_lib \<Rightarrow> userData \<Rightarrow> patch" where
  "put_sanitized lib b =
     \<lparr>patch_name = opt_field js_trim (name b),
      patch_email = opt_field (normalizeEmail lib) (email b),
      patch_role = opt_field (\<lambda>s. s) (role b)\<rparr>"

section \<open>Request handlers (src/api.js)\<close>

text \<open>
  Each handler takes the store and returns the response and the store afterwards.
  \<^verbatim>\<open>new Date().toISOString()\<close> is the argument \<open>now\<close>. None of the operations in a
  handler body can throw on the modelled values, so the \<^verbatim>\<open>catch\<close> branches (500) are
  never taken.
\<close>

definition invalid_id :: response where
  "invalid_id = Response 400 False (ErrorMsg ''Invalid user ID format'')"

definition not_found :: response where
  "not_found = Response 404 False (ErrorMsg ''User not found'')"

definition email_exists :: response where
  "email_exists = Response 409 False (ErrorMsg ''Email already exists'')"

text \<open>
  GET /users. The query parameters are strings when present. An absent \<^verbatim>\<open>limit\<close> takes
  the default 50; \<^verbatim>\<open>if (role)\<close> filters only on a non-empty role.
\<close>

definition filteredUsers :: "store \<Rightarrow> string option \<Rightarrow> user list" where
  "filteredUsers s role_q =
     (case role_q of
        None \<Rightarrow> users s
      | Some r \<Rightarrow> if r \<noteq> [] then filter (\<lambda>u. user_role u = r) (users s) else users s)"

definition limitedUsers :: "store \<Rightarrow> string option \<Rightarrow> string option \<Rightarrow> user list" where
  "limitedUsers s role_q limit_q =
     slice0 (filteredUsers s role_q) (case limit_q of None \<Rightarrow> Some 50 | Some l \<Rightarrow> parseInt l)"

definition get_users :: "store \<Rightarrow> string option \<Rightarrow> string option \<Rightarrow> response" where
  "get_users s role_q limit_q =
     Response 200 True
       (UserList (limitedUsers s role_q limit_q)
          (length (filteredUsers s role_q))
          (length (limitedUsers s role_q limit_q)))"

text \<open>GET /users/:id.\<close>

definition get_user :: "store \<Rightarrow> string \<Rightarrow> response" where
  "get_user s id_param =
     (case parseInt id_param of
        None \<Rightarrow> invalid_id
      | Some userId \<Rightarrow>
          (case find (\<lambda>u. user_id u = userId) (users s) of
             None \<Rightarrow> not_found
           | Some u \<Rightarrow> Response 200 True (UserData u)))"

text \<open>POST /users, after validation.\<close>

definition post_handler :: "timestamp \<Rightarrow> store \<Rightarrow> new_user \<Rightarrow> response \<times> store" where
  "post_handler now s b =
     (case find (\<lambda>u. user_email u = new_email b) (users s) of
        Some existingUser \<Rightarrow> (email_exists, s)
      | None \<Rightarrow>
          (let newUser =
                 \<lparr>user_id = nextId s, user_name = new_name b, user_email = new_email b,
                  user_role = (case new_role b of None \<Rightarrow> ''user'' | Some r \<Rightarrow> r),
                  createdAt = Some now, updatedAt = None\<rparr>
           in (Response 201 True (UserData newUser),
               \<lparr>users = users s @ [newUser], nextId = nextId s + 1\<rparr>)))"

text \<open>PUT /users/:id, after validation.\<close>

definition merge_patch :: "timestamp \<Rightarrow> patch \<Rightarrow> user \<Rightarrow> user" where
  "merge_patch now b u =
     u\<lparr>user_name := (case patch_name b of None \<Rightarrow> user_name u | Some n \<Rightarrow> n),
       user_email := (case patch_email b of None \<Rightarrow> user_email u | Some e \<Rightarrow> e),
       user_role := (case patch_role b of None \<Rightarrow> user_role u | Some r \<Rightarrow> r),
       updatedAt := Some now\<rparr>"

definition put_handler :: "timestamp \<Rightarrow> store \<Rightarrow> string \<Rightarrow> patch \<Rightarrow> response \<times> store" where
  "put_handler now s id_param b =
     (case parseInt id_param of
        None \<Rightarrow> (invalid_id, s)
      | Some userId \<Rightarrow>
          (case findIndex (\<lambda>u. user_id u = userId) (users s) of
             None \<Rightarrow> (not_found, s)
           | Some userIndex \<Rightarrow>
               if (case patch_email b of
                     None \<Rightarrow> False
                   | Some e \<Rightarrow> e \<noteq> [] \<and> e \<noteq> user_email (users s ! userIndex) \<and>
                       find (\<lambda>u. user_email u = e) (users s) \<noteq> None)
               then (email_exists, s)
               else
                 (let updated = merge_patch now b (users s ! userIndex)
                  in (Response 200 True (UserData updated),
                      s\<lparr>users := (users s)[userIndex := updated]\<rparr>))))"

text \<open>DELETE /users/:id.\<close>

definition delete_handler :: "store \<Rightarrow> string \<Rightarrow> response \<times> store" where
  "delete_handler s id_param =
     (case parseInt id_param of
        None \<Rightarrow> (invalid_id, s)
      | Some userId \<Rightarrow>
          (case findIndex (\<lambda>u. user_id u = userId) (users s) of
             None \<Rightarrow> (not_found, s)
           | Some userIndex \<Rightarrow>
               (Response 200 True (UserData (users s ! userIndex)),
                s\<lparr>users := take userIndex (users s) @ drop (Suc userIndex) (users s)\<rparr>)))"

text \<open>The routes: the validator chains, \<^verbatim>\<open>handleValidationErrors\<close>, then the handler.\<close>

definition post_route :: "validator_lib \<Rightarrow> timestamp \<Rightarrow> store \<Rightarrow> userData \<Rightarrow> response \<times> store" where
  "post_route lib now s b =
     (case handleValidationErrors (post_validation lib b) of
        Some r \<Rightarrow> (r, s)
      | None \<Rightarrow> post_handler now s (post_sanitized lib b))"

definition put_route ::
  "validator_lib \<Rightarrow> timestamp \<Rightarrow> store \<Rightarrow> string \<Rightarrow> userData \<Rightarrow> response \<times> store" where
  "put_route lib now s id_param b =
     (case handleValidationErrors (put_validation lib b) of
        Some r \<Rightarrow> (r, s)
      | None \<Rightarrow> put_handler now s id_param (put_sanitized lib b))"

text \<open>A request with the time at which it is served, and a run of requests in order.\<close>

datatype request =
    GetUsers "string option" "string option"
  | GetUser string
  | PostUser userData
  | PutUser string userData
  | DeleteUser string

definition serve :: "validator_lib \<Rightarrow> store \<Rightarrow> timestamp \<times> request \<Rightarrow> response \<times> store" where
  "serve lib s tr =
     (case snd tr of
        GetUsers role_q limit_q \<Rightarrow> (get_users s role_q limit_q, s)
      | GetUser id_param \<Rightarrow> (get_user s id_param, s)
      | PostUser b \<Rightarrow> post_route lib (fst tr) s b
      | PutUser id_param b \<Rightarrow> put_route lib (fst tr) s id_param b
      | DeleteUser id_param \<Rightarrow> delete_handler s id_param)"

fun run :: "validator_lib \<Rightarrow> store \<Rightarrow> (timestamp \<times> request) list \<Rightarrow> response list \<times> store" where
  "run lib s [] = ([], s)"
| "run lib s (tr # trs) =
     (let (r, s1) = serve lib s tr; (rs, s2) = run lib s1 trs in (r # rs, s2))"

section \<open>The browser client (public/api-client.js, class ApiClient)\<close>

text \<open>
  \<^verbatim>\<open>validateUserData(userData, isPartial)\<close> returns \<^verbatim>\<open>null\<close> (\<open>None\<close>) or one
  object \<^verbatim>\<open>{field, message}\<close>.
\<close>

definition emailRegex_test :: "string \<Rightarrow> bool" where
  "emailRegex_test s =
     (let local = takeWhile (\<lambda>c. c \<noteq> CHR ''@'') s;
          rest = dropWhile (\<lambda>c. c \<noteq> CHR ''@'') s;
          domain = drop 1 rest
      in rest \<noteq> [] \<and> local \<noteq> [] \<and> \<not> list_ex is_ws local \<and>
         \<not> list_ex (\<lambda>c. is_ws c \<or> c = CHR ''@'') domain \<and>
         CHR ''.'' \<in> set (butlast (drop 1 domain)))"

definition name_length_bad :: "jsval \<Rightarrow> bool" where
  "name_length_bad v =
     (case v of
        JStr s \<Rightarrow> length (js_trim s) < 2 \<or> length (js_trim s) > 50
      | _ \<Rightarrow> True)"

text \<open>The role message quotes the two role names (character 0x22).\<close>

definition role_message :: string where
  "role_message =
     ''Role must be either '' @ [CHR 0x22] @ ''user'' @ [CHR 0x22] @ '' or '' @
     [CHR 0x22] @ ''admin'' @ [CHR 0x22]"

definition validateUserData :: "userData \<Rightarrow> bool \<Rightarrow> violation option" where
  "validateUserData d isPartial =
     (if \<not> isPartial \<and> \<not> truthy (name d) then Some (''name'', ''Name is required'')
      else if name d \<noteq> JUndefined \<and> name_length_bad (name d)
        then Some (''name'', ''Name must be between 2 and 50 characters'')
      else if \<not> isPartial \<and> \<not> truthy (email d) then Some (''email'', ''Email is required'')
      else if email d \<noteq> JUndefined \<and> \<not> emailRegex_test (js_String (email d))
        then Some (''email'', ''Please enter a valid email address'')
      else if role d \<noteq> JUndefined \<and> role d \<notin> set [JStr ''user'', JStr ''admin'']
        then Some (''role'', role_message)
      else None)"

text \<open>
  \<^verbatim>\<open>ApiError\<close>, and the outcome of \<^verbatim>\<open>this.request(...)\<close>: the parsed envelope of a
  successful response, or the error it throws. What the network answers is an argument
  \<open>net\<close> of every operation that may issue a request; the boolean in a result tells
  whether the request was issued.
\<close>

record ApiError =
  error_message :: string
  error_status :: nat
  error_details :: "violation list option"

definition invalid_user_id :: ApiError where
  "invalid_user_id =
     \<lparr>error_message = ''Invalid user ID'', error_status = 400, error_details = None\<rparr>"

definition validation_error :: "violation \<Rightarrow> ApiError" where
  "validation_error v =
     \<lparr>error_message = ''Validation error'', error_status = 400, error_details = Some [v]\<rparr>"

definition bad_id :: "jsval \<Rightarrow> bool" where
  "bad_id i = (\<not> truthy i \<or> parseInt (js_String i) = None)"


definition createUser :: "(ApiError + 'r) \<Rightarrow> userData \<Rightarrow> (ApiError + 'r) \<times> bool" where
  "createUser net d =
     (case validateUserData d False of
        Some v \<Rightarrow> (Inl (validation_error v), False)
      | None \<Rightarrow> (net, True))"

definition updateUser :: "(ApiError + 'r) \<Rightarrow> jsval \<Rightarrow> userData \<Rightarrow> (ApiError + 'r) \<times> bool" where
  "updateUser net i d =
     (if bad_id i then (Inl invalid_user_id, False)
      else case validateUserData d True of
             Some v \<Rightarrow> (Inl (validation_error v), False)
           | None \<Rightarrow> (net, True))"

definition deleteUser :: "(ApiError + 'r) \<Rightarrow> jsval \<Rightarrow> (ApiError + 'r) \<times> bool" where
  "deleteUser net i = (if bad_id i then (Inl invalid_user_id, False) else (net, True))"

section \<open>Response cache of the browser client (public/api-client.js, class ApiCache)\<close>

text \<open>
  \<^verbatim>\<open>ApiCache\<close> holds a \<^verbatim>\<open>Map\<close> from keys to items \<^verbatim>\<open>{value, timestamp}\<close> and a
  time-to-live in milliseconds. \<^verbatim>\<open>Date.now()\<close> is an argument of the model: every
  operation that reads the clock takes the value it read.
\<close>

record 'v cache_item =
  item_value :: 'v
  timestamp :: int

record 'v ApiCache =
  cache :: "string \<rightharpoonup> 'v cache_item"
  ttl :: int

definition new_ApiCache :: "int \<Rightarrow> 'v ApiCache" where
  "new_ApiCache t = \<lparr>cache = Map.empty, ttl = t\<rparr>"


definition cache_set :: "int \<Rightarrow> string \<Rightarrow> 'v \<Rightarrow> 'v ApiCache \<Rightarrow> 'v ApiCache" where
  "cache_set now key v c = c\<lparr>cache := (cache c)(key \<mapsto> \<lparr>item_value = v, timestamp = now\<rparr>)\<rparr>"

text \<open>
  \<^verbatim>\<open>get(key)\<close>: a missing key is a miss; an item with
  \<^verbatim>\<open>Date.now() - item.timestamp > this.ttl\<close> is deleted and reported as a miss; any other
  item is returned. The result is the returned value (\<open>None\<close> for \<^verbatim>\<open>null\<close>) and the
  cache afterwards.
\<close>

definition cache_get :: "int \<Rightarrow> string \<Rightarrow> 'v ApiCache \<Rightarrow> 'v option \<times> 'v ApiCache" where
  "cache_get now key c =
     (case cache c key of
        None \<Rightarrow> (None, c)
      | Some item \<Rightarrow>
          if now - timestamp item > ttl c
          then (None, c\<lparr>cache := (cache c)(key := None)\<rparr>)
          else (Some (item_value item), c))"

definition cache_clear :: "'v ApiCache \<Rightarrow> 'v ApiCache" where
  "cache_clear c = c\<lparr>cache := Map.empty\<rparr>"

definition cache_delete :: "string \<Rightarrow> 'v ApiCache \<Rightarrow> 'v ApiCache" where
  "cache_delete key c = c\<lparr>cache := (cache c)(key := None)\<rparr>"

section \<open>The caching client (public/api-client.js, class CachedApiClient)\<close>



definition invalidating ::
  "(ApiError + 'r) \<times> bool \<Rightarrow> 'r ApiCache \<Rightarrow> (ApiError + 'r) \<times> 'r ApiCache \<times> bool" where
  "invalidating outcome c =
     (case outcome of
        (Inl e, issued) \<Rightarrow> (Inl e, c, issued)
      | (Inr result, issued) \<Rightarrow> (Inr result, cache_clear c, issued))"




section \<open>Runs of the client and observations on runs\<close>







section \<open>Notions used to state the properties\<close>

text \<open>
  The identifier handed out by a successful create (POST answered 201) and the identifier
  removed by a successful delete (DELETE answered 200).
\<close>

definition created_id :: "request \<Rightarrow> response \<Rightarrow> int option" where
  "created_id req r =
     (case req of
        PostUser b \<Rightarrow>
          (case payload r of
             UserData u \<Rightarrow> if status r = 201 then Some (user_id u) else None
           | _ \<Rightarrow> None)
      | _ \<Rightarrow> None)"

definition deleted_id :: "request \<Rightarrow> response \<Rightarrow> int option" where
  "deleted_id req r =
     (case req of
        DeleteUser id_param \<Rightarrow>
          (case payload r of
             UserData u \<Rightarrow> if status r = 200 then Some (user_id u) else None
           | _ \<Rightarrow> None)
      | _ \<Rightarrow> None)"

definition ids_below :: "store \<Rightarrow> bool" where
  "ids_below s = (\<forall>u \<in> set (users s). user_id u < nextId s)"

text \<open>
  The email invariant of the store: the stored addresses are pairwise distinct and none is
  empty. It holds of the seed store and every request preserves it, as long as the
  library never normalises an address that \<^verbatim>\<open>isEmail\<close> accepts to the empty string.
\<close>

definition store_inv :: "store \<Rightarrow> bool" where
  "store_inv s = (distinct (map user_email (users s)) \<and> [] \<notin> set (map user_email (users s)))"

definition lib_ok :: "validator_lib \<Rightarrow> bool" where
  "lib_ok lib = (\<forall>x. isEmail lib x \<longrightarrow> normalizeEmail lib x \<noteq> [])"

text \<open>
  The validation rules field by field, as the client applies them and as the server's
  chains apply them, and the server's error list in either mode.
\<close>

definition client_name_violated :: "bool \<Rightarrow> jsval \<Rightarrow> bool" where
  "client_name_violated isPartial v =
     ((\<not> isPartial \<and> \<not> truthy v) \<or> (v \<noteq> JUndefined \<and> name_length_bad v))"

definition client_email_violated :: "bool \<Rightarrow> jsval \<Rightarrow> bool" where
  "client_email_violated isPartial v =
     ((\<not> isPartial \<and> \<not> truthy v) \<or> (v \<noteq> JUndefined \<and> \<not> emailRegex_test (js_String v)))"

definition client_role_violated :: "jsval \<Rightarrow> bool" where
  "client_role_violated v = (v \<noteq> JUndefined \<and> v \<notin> set [JStr ''user'', JStr ''admin''])"

definition server_name_violated :: "bool \<Rightarrow> jsval \<Rightarrow> bool" where
  "server_name_violated opt v =
     (\<not> (opt \<and> v = JUndefined) \<and>
      \<not> (2 \<le> length (js_trim (ev_toString v)) \<and> length (js_trim (ev_toString v)) \<le> 50))"

definition server_email_violated :: "validator_lib \<Rightarrow> bool \<Rightarrow> jsval \<Rightarrow> bool" where
  "server_email_violated lib opt v = (\<not> (opt \<and> v = JUndefined) \<and> \<not> isEmail lib (ev_toString v))"

definition server_role_violated :: "jsval \<Rightarrow> bool" where
  "server_role_violated v = (v \<noteq> JUndefined \<and> ev_toString v \<notin> set [''user'', ''admin''])"

definition server_validation :: "validator_lib \<Rightarrow> bool \<Rightarrow> userData \<Rightarrow> violation list" where
  "server_validation lib isPartial d =
     (if isPartial then put_validation lib d else post_validation lib d)"

text \<open>
  A concrete library for running the model on examples: it judges an address as the
  client's pattern does and normalises nothing. Every property below that involves the
  library is proved for an arbitrary one.
\<close>

definition regex_lib :: validator_lib where
  "regex_lib = \<lparr>isEmail = emailRegex_test, normalizeEmail = (\<lambda>e. e)\<rparr>"

text \<open>A run used as an example: create, delete the created record, create again.\<close>

definition sample_run :: "(timestamp \<times> request) list" where
  "sample_run =
     [(''t1'', PostUser \<lparr>name = JStr ''Ann Lee'', email = JStr ''ann@example.com'', role = JUndefined\<rparr>),
      (''t2'', DeleteUser ''3''),
      (''t3'', PostUser \<lparr>name = JStr ''Bob Roy'', email = JStr ''bob@example.com'', role = JUndefined\<rparr>)]"

section \<open>Auxiliary facts\<close>

subsection \<open>Evaluation of the built-ins on the examples\<close>

lemma parseInt_abc: "parseInt ''abc'' = None"
  by (simp add: parseInt_def is_ws_def is_digit_def digit_value_def)

lemma parseInt_2: "parseInt ''2'' = Some 2"
  by (simp add: parseInt_def is_ws_def is_digit_def digit_value_def digits_value_def)


subsection \<open>Lists\<close>


lemma findIndex_Some_D:
  "findIndex p xs = Some i \<Longrightarrow> i < length xs \<and> p (xs ! i)"
proof (induction xs arbitrary: i)
  case Nil
  then show ?case by simp
next
  case (Cons x xs)
  then show ?case by (auto split: if_splits)
qed


lemma distinct_update_same_or_fresh:
  assumes "distinct xs" and "i < length xs" and "y = xs ! i \<or> y \<notin> set xs"
  shows "distinct (xs[i := y])"
  using assms by (auto simp: distinct_list_update)

subsection \<open>Validation\<close>

lemma handleValidationErrors_None: "handleValidationErrors errs = None \<longleftrightarrow> errs = []"
  by (simp add: handleValidationErrors_def)

lemma handleValidationErrors_status:
  "handleValidationErrors errs = Some r \<Longrightarrow> status r = 400"
  by (auto simp: handleValidationErrors_def split: if_splits)

lemma validateUserData_cases:
  "validateUserData d p =
     (if client_name_violated p (name d)
        then Some (''name'', if \<not> p \<and> \<not> truthy (name d) then ''Name is required''
                             else ''Name must be between 2 and 50 characters'')
      else if client_email_violated p (email d)
        then Some (''email'', if \<not> p \<and> \<not> truthy (email d) then ''Email is required''
                              else ''Please enter a valid email address'')
      else if client_role_violated (role d) then Some (''role'', role_message)
      else None)"
  by (auto simp: validateUserData_def client_name_violated_def client_email_violated_def
      client_role_violated_def)

lemma server_validation_fields:
  "map fst (server_validation lib p d) =
     (if server_name_violated p (name d) then [''name''] else []) @
     (if server_email_violated lib p (email d) then [''email''] else []) @
     (if server_role_violated (role d) then [''role''] else [])"
  by (simp add: server_validation_def put_validation_def post_validation_def name_chain_def
      email_chain_def role_chain_def isLength_def server_name_violated_def
      server_email_violated_def server_role_violated_def)

lemma digit_char_digit: "k < 10 \<Longrightarrow> digit_char k \<in> set ''0123456789''"
  unfolding digit_char_def by (rule nth_mem) simp

lemma show_nat_last: "show_nat n \<noteq> [] \<and> last (show_nat n) \<in> set ''0123456789''"
proof (cases "n < 10")
  case True
  with digit_char_digit [of n] show ?thesis
    by (subst (1 2) show_nat.simps) simp
next
  case False
  with digit_char_digit [of "n mod 10"] show ?thesis
    by (subst (1 2) show_nat.simps) simp
qed

lemma show_int_last: "show_int i \<noteq> [] \<and> last (show_int i) \<in> set ''0123456789''"
  using show_nat_last [of "nat i"] show_nat_last [of "nat (- i)"]
  by (simp add: show_int_def)

lemma show_int_not_role: "show_int i \<notin> set [''user'', ''admin'']"
proof
  assume "show_int i \<in> set [''user'', ''admin'']"
  then have "last (show_int i) \<in> {CHR ''r'', CHR ''n''}" by auto
  with show_int_last [of i] show False by auto
qed

lemma role_rules_agree: "client_role_violated v = server_role_violated v"
  using show_int_not_role
  by (cases v) (auto simp: client_role_violated_def server_role_violated_def ev_toString_def
      js_String_def)

lemma role_chain_accepts:
  "role_chain v = [] \<Longrightarrow> v = JUndefined \<or> v = JStr ''user'' \<or> v = JStr ''admin''"
  using role_rules_agree [of v]
  by (auto simp: role_chain_def client_role_violated_def server_role_violated_def
      split: if_splits)

lemma name_rules_agree:
  "v = JUndefined \<or> v = JNull \<or> (\<exists>s. v = JStr s) \<Longrightarrow>
     client_name_violated p v = server_name_violated p v"
  by (auto simp: client_name_violated_def server_name_violated_def name_length_bad_def
      truthy_def ev_toString_def js_String_def js_trim_def)

lemma regex_empty: "\<not> emailRegex_test []"
  by (simp add: emailRegex_test_def)

lemma regex_no_at: "CHR ''@'' \<notin> set s \<Longrightarrow> \<not> emailRegex_test s"
  by (simp add: emailRegex_test_def Let_def dropWhile_eq_Nil_conv)

lemma email_rules_agree:
  assumes "(p \<and> v = JUndefined) \<or>
           (isEmail lib (ev_toString v) \<longleftrightarrow> emailRegex_test (ev_toString v))"
  shows "client_email_violated p v = server_email_violated lib p v"
proof (cases v)
  case JUndefined
  with assms show ?thesis
    by (auto simp: client_email_violated_def server_email_violated_def truthy_def
        ev_toString_def regex_empty)
next
  case JNull
  with assms show ?thesis
    by (auto simp: client_email_violated_def server_email_violated_def truthy_def
        ev_toString_def js_String_def regex_empty regex_no_at)
next
  case (JBool b)
  with assms show ?thesis
    by (auto simp: client_email_violated_def server_email_violated_def truthy_def
        ev_toString_def js_String_def regex_no_at)
next
  case (JNum n)
  have "\<not> emailRegex_test (show_int 0)"
    by (simp add: show_int_def show_nat.simps digit_char_def regex_no_at)
  with JNum assms show ?thesis
    by (auto simp: client_email_violated_def server_email_violated_def truthy_def
        ev_toString_def js_String_def)
next
  case (JStr s)
  with assms show ?thesis
    by (auto simp: client_email_violated_def server_email_violated_def truthy_def
        ev_toString_def js_String_def regex_empty)
qed

subsection \<open>Handlers\<close>

lemma put_handler_200:
  assumes "put_handler now s id_param b = (r, s')" and "status r = 200"
  shows "\<exists>i. i < length (users s) \<and>
           parseInt id_param = Some (user_id (users s ! i)) \<and>
           findIndex (\<lambda>u. user_id u = user_id (users s ! i)) (users s) = Some i \<and>
           (\<forall>e. patch_email b = Some e \<longrightarrow>
                e = [] \<or> e = user_email (users s ! i) \<or>
                find (\<lambda>u. user_email u = e) (users s) = None) \<and>
           r = Response 200 True (UserData (merge_patch now b (users s ! i))) \<and>
           s' = s\<lparr>users := (users s)[i := merge_patch now b (users s ! i)]\<rparr>"
proof (cases "parseInt id_param")
  case None
  with assms show ?thesis by (auto simp: put_handler_def invalid_id_def)
next
  case (Some n)
  show ?thesis
  proof (cases "findIndex (\<lambda>u. user_id u = n) (users s)")
    case None
    with Some assms show ?thesis by (auto simp: put_handler_def not_found_def)
  next
    case (Some i)
    note idx = findIndex_Some_D [OF Some]
    from assms \<open>parseInt id_param = Some n\<close> Some
    have "r = Response 200 True (UserData (merge_patch now b (users s ! i))) \<and>
           s' = s\<lparr>users := (users s)[i := merge_patch now b (users s ! i)]\<rparr> \<and>
           (\<forall>e. patch_email b = Some e \<longrightarrow>
                e = [] \<or> e = user_email (users s ! i) \<or>
                find (\<lambda>u. user_email u = e) (users s) = None)"
      by (auto simp: put_handler_def email_exists_def Let_def split: if_splits)
    with idx \<open>parseInt id_param = Some n\<close> Some show ?thesis by auto
  qed
qed

lemma limitedUsers_subset: "set (limitedUsers s role_q limit_q) \<subseteq> set (filteredUsers s role_q)"
  by (auto simp: limitedUsers_def slice0_def split: option.splits dest: in_set_takeD)

subsection \<open>Duplicate addresses and the email invariant\<close>

lemma store_inv_nonempty: "store_inv s \<Longrightarrow> u \<in> set (users s) \<Longrightarrow> user_email u \<noteq> []"
  by (force simp: store_inv_def)





lemma post_route_store_inv:
  assumes "lib_ok lib" and "store_inv s"
  shows "store_inv (snd (post_route lib now s b))"
proof (cases "post_validation lib b = []")
  case False
  with assms(2) show ?thesis by (simp add: post_route_def handleValidationErrors_def)
next
  case True
  then have "isEmail lib (ev_toString (email b))"
    by (auto simp: post_validation_def email_chain_def split: if_splits)
  with assms(1) have ne: "new_email (post_sanitized lib b) \<noteq> []"
    by (simp add: lib_ok_def post_sanitized_def)
  show ?thesis
  proof (cases "find (\<lambda>u. user_email u = new_email (post_sanitized lib b)) (users s)")
    case None
    then have "new_email (post_sanitized lib b) \<notin> set (map user_email (users s))"
      by (auto simp: find_None_iff)
    with True None assms(2) ne show ?thesis
      by (auto simp: post_route_def handleValidationErrors_def post_handler_def store_inv_def
          Let_def)
  next
    case (Some u)
    with True assms(2) show ?thesis
      by (simp add: post_route_def handleValidationErrors_def post_handler_def)
  qed
qed

lemma put_route_store_inv:
  assumes "lib_ok lib" and "store_inv s"
  shows "store_inv (snd (put_route lib now s id_param b))"
proof (cases "status (fst (put_route lib now s id_param b)) = 200")
  case False
  have "snd (put_route lib now s id_param b) = s"
  proof (cases "handleValidationErrors (put_validation lib b)")
    case (Some r0)
    then show ?thesis by (simp add: put_route_def)
  next
    case None
    with False show ?thesis
      by (auto simp: put_route_def put_handler_def Let_def split: option.splits if_splits)
  qed
  with assms(2) show ?thesis by simp
next
  case True
  have v: "put_validation lib b = []"
  proof (rule ccontr)
    assume "put_validation lib b \<noteq> []"
    then have "status (fst (put_route lib now s id_param b)) = 400"
      by (simp add: put_route_def handleValidationErrors_def)
    with True show False by simp
  qed
  then have rt: "put_route lib now s id_param b = put_handler now s id_param (put_sanitized lib b)"
    by (simp add: put_route_def handleValidationErrors_def)
  let ?p = "put_sanitized lib b"
  from put_handler_200 [of now s id_param ?p "fst (put_route lib now s id_param b)"
      "snd (put_route lib now s id_param b)"] rt True
  obtain i where i: "i < length (users s)"
    "snd (put_route lib now s id_param b) = s\<lparr>users := (users s)[i := merge_patch now ?p (users s ! i)]\<rparr>"
    and free: "\<forall>e. patch_email ?p = Some e \<longrightarrow>
                e = [] \<or> e = user_email (users s ! i) \<or>
                find (\<lambda>u. user_email u = e) (users s) = None"
    by auto
  let ?e = "user_email (merge_patch now ?p (users s ! i))"
  have emails: "map user_email ((users s)[i := merge_patch now ?p (users s ! i)])
      = (map user_email (users s))[i := ?e]"
    by (simp add: map_update)
  have old_ne: "user_email (users s ! i) \<noteq> []"
    using store_inv_nonempty [OF assms(2), of "users s ! i"] i(1) by simp
  have given: "\<And>e. patch_email ?p = Some e \<Longrightarrow> e \<noteq> []"
  proof -
    fix e assume pe: "patch_email ?p = Some e"
    then have ue: "email b \<noteq> JUndefined" and ee: "e = normalizeEmail lib (ev_toString (email b))"
      by (auto simp: put_sanitized_def opt_field_def split: if_splits)
    from v ue have "isEmail lib (ev_toString (email b))"
      by (auto simp: put_validation_def email_chain_def split: if_splits)
    with assms(1) ee show "e \<noteq> []" by (simp add: lib_ok_def)
  qed
  have e_cases: "?e = map user_email (users s) ! i \<or> ?e \<notin> set (map user_email (users s))"
  proof (cases "patch_email ?p")
    case None
    with i(1) show ?thesis by (simp add: merge_patch_def)
  next
    case (Some e)
    with free given [OF Some]
    have "e = user_email (users s ! i) \<or> e \<notin> set (map user_email (users s))"
      by (auto simp: find_None_iff)
    with Some i(1) show ?thesis by (auto simp: merge_patch_def)
  qed
  have e_ne: "?e \<noteq> []"
  proof (cases "patch_email ?p")
    case None
    with old_ne show ?thesis by (simp add: merge_patch_def)
  next
    case (Some e)
    with given [OF Some] show ?thesis by (simp add: merge_patch_def)
  qed
  have d: "distinct ((map user_email (users s))[i := ?e])"
    using distinct_update_same_or_fresh [of "map user_email (users s)" i ?e] assms(2) i(1) e_cases
    by (simp add: store_inv_def)
  have n: "[] \<notin> set ((map user_email (users s))[i := ?e])"
  proof
    assume "[] \<in> set ((map user_email (users s))[i := ?e])"
    then have "[] \<in> insert ?e (set (map user_email (users s)))"
      using set_update_subset_insert by fast
    with e_ne assms(2) show False by (auto simp: store_inv_def)
  qed
  from d n i(2) emails show ?thesis by (simp add: store_inv_def)
qed

lemma delete_handler_store_inv:
  assumes "store_inv s"
  shows "store_inv (snd (delete_handler s id_param))"
proof -
  have sub: "\<And>i. set (take i (map user_email (users s)) @ drop (Suc i) (map user_email (users s)))
      \<subseteq> set (map user_email (users s))"
    by (auto dest: in_set_takeD in_set_dropD)
  have dist: "\<And>i. distinct (take i (map user_email (users s)) @ drop (Suc i) (map user_email (users s)))"
    using assms set_take_disj_set_drop_if_distinct [of "map user_email (users s)"]
    by (simp add: store_inv_def)
  have "\<And>i. store_inv (s\<lparr>users := take i (users s) @ drop (Suc i) (users s)\<rparr>)"
  proof -
    fix i
    from sub [of i] assms have "[] \<notin> set (take i (map user_email (users s)) @ drop (Suc i) (map user_email (users s)))"
      unfolding store_inv_def by blast
    with dist [of i] show "store_inv (s\<lparr>users := take i (users s) @ drop (Suc i) (users s)\<rparr>)"
      by (simp add: store_inv_def take_map drop_map)
  qed
  with assms show ?thesis
    by (simp add: delete_handler_def split: option.splits)
qed

lemma serve_store_inv:
  assumes "lib_ok lib" and "store_inv s"
  shows "store_inv (snd (serve lib s tr))"
  using assms post_route_store_inv [of lib s "fst tr"] put_route_store_inv [of lib s "fst tr"]
    delete_handler_store_inv [of s]
  by (cases "snd tr") (simp_all add: serve_def)

lemma run_store_inv:
  assumes "lib_ok lib" and "store_inv s"
  shows "store_inv (snd (run lib s trs))"
  using assms(2)
proof (induction trs arbitrary: s)
  case Nil
  then show ?case by simp
next
  case (Cons tr trs)
  from serve_store_inv [OF assms(1) Cons.prems, of tr]
  have "store_inv (snd (run lib (snd (serve lib s tr)) trs))"
    by (rule Cons.IH)
  then show ?case by (simp add: split_beta Let_def)
qed

subsection \<open>Identifiers along a run\<close>

lemma post_handler_ids:
  assumes "ids_below s" and "post_handler now s b = (r, s1)"
  shows "ids_below s1 \<and> nextId s \<le> nextId s1 \<and>
         (\<forall>k. created_id (PostUser d) r = Some k \<longrightarrow> nextId s \<le> k \<and> k < nextId s1)"
proof (cases "find (\<lambda>u. user_email u = new_email b) (users s)")
  case None
  with assms show ?thesis
    by (fastforce simp: post_handler_def ids_below_def created_id_def Let_def)
next
  case (Some u)
  with assms show ?thesis
    by (auto simp: post_handler_def email_exists_def created_id_def)
qed

lemma post_route_ids:
  assumes "ids_below s" and "post_route lib now s b = (r, s1)"
  shows "ids_below s1 \<and> nextId s \<le> nextId s1 \<and>
         (\<forall>k. created_id (PostUser b) r = Some k \<longrightarrow> nextId s \<le> k \<and> k < nextId s1)"
proof (cases "handleValidationErrors (post_validation lib b)")
  case None
  with assms post_handler_ids [of s now "post_sanitized lib b" r s1 b] show ?thesis
    by (simp add: post_route_def)
next
  case (Some r0)
  with assms have "r = r0" "s1 = s" by (auto simp: post_route_def)
  with handleValidationErrors_status [OF Some] assms(1) show ?thesis
    by (auto simp: created_id_def split: payload.splits)
qed

lemma merge_patch_id: "user_id (merge_patch now b u) = user_id u"
  by (simp add: merge_patch_def)

lemma put_handler_ids:
  assumes "ids_below s" and "put_handler now s id_param b = (r, s1)"
  shows "ids_below s1 \<and> nextId s1 = nextId s"
proof (cases "status r = 200")
  case True
  from put_handler_200 [OF assms(2) True] obtain i where
    i: "i < length (users s)"
       "s1 = s\<lparr>users := (users s)[i := merge_patch now b (users s ! i)]\<rparr>"
    by blast
  have "\<forall>u \<in> set ((users s)[i := merge_patch now b (users s ! i)]). user_id u < nextId s"
  proof
    fix u assume "u \<in> set ((users s)[i := merge_patch now b (users s ! i)])"
    then have "u \<in> insert (merge_patch now b (users s ! i)) (set (users s))"
      using set_update_subset_insert by fast
    moreover have "users s ! i \<in> set (users s)" using i(1) by simp
    ultimately show "user_id u < nextId s"
      using assms(1) by (auto simp: ids_below_def merge_patch_id)
  qed
  with i(2) show ?thesis by (simp add: ids_below_def)
next
  case False
  with assms have "s1 = s"
    by (auto simp: put_handler_def Let_def split: option.splits if_splits)
  with assms(1) show ?thesis by simp
qed

lemma put_route_ids:
  assumes "ids_below s" and "put_route lib now s id_param b = (r, s1)"
  shows "ids_below s1 \<and> nextId s1 = nextId s"
proof (cases "handleValidationErrors (put_validation lib b)")
  case None
  with assms put_handler_ids [of s now id_param "put_sanitized lib b" r s1] show ?thesis
    by (simp add: put_route_def)
next
  case (Some r0)
  with assms show ?thesis by (auto simp: put_route_def)
qed

lemma delete_handler_ids:
  assumes "ids_below s" and "delete_handler s id_param = (r, s1)"
  shows "ids_below s1 \<and> nextId s1 = nextId s \<and>
         (\<forall>k. deleted_id (DeleteUser id_param) r = Some k \<longrightarrow> k < nextId s)"
proof (cases "parseInt id_param")
  case None
  with assms show ?thesis
    by (auto simp: delete_handler_def invalid_id_def deleted_id_def)
next
  case (Some n)
  show ?thesis
  proof (cases "findIndex (\<lambda>u. user_id u = n) (users s)")
    case None
    with Some assms show ?thesis
      by (auto simp: delete_handler_def not_found_def deleted_id_def)
  next
    case (Some i)
    note idx = findIndex_Some_D [OF Some]
    from assms(2) \<open>parseInt id_param = Some n\<close> Some
    have r: "r = Response 200 True (UserData (users s ! i))"
      and s1: "s1 = s\<lparr>users := take i (users s) @ drop (Suc i) (users s)\<rparr>"
      by (auto simp: delete_handler_def)
    have "set (take i (users s) @ drop (Suc i) (users s)) \<subseteq> set (users s)"
      by (auto dest: in_set_takeD in_set_dropD)
    with assms(1) s1 have "ids_below s1" by (auto simp: ids_below_def)
    moreover have "users s ! i \<in> set (users s)" using idx by simp
    then have "user_id (users s ! i) < nextId s" using assms(1) by (simp add: ids_below_def)
    ultimately show ?thesis using r s1 by (simp add: deleted_id_def)
  qed
qed

lemma serve_ids:
  assumes "ids_below s" and "serve lib s tr = (r, s1)"
  shows "ids_below s1 \<and> nextId s \<le> nextId s1 \<and>
         (\<forall>k. created_id (snd tr) r = Some k \<longrightarrow> nextId s \<le> k \<and> k < nextId s1) \<and>
         (\<forall>k. deleted_id (snd tr) r = Some k \<longrightarrow> k < nextId s1)"
proof (cases "snd tr")
  case (GetUsers role_q limit_q)
  with assms show ?thesis by (auto simp: serve_def created_id_def deleted_id_def)
next
  case (GetUser id_param)
  with assms show ?thesis by (auto simp: serve_def created_id_def deleted_id_def)
next
  case (PostUser b)
  with assms post_route_ids [of s lib "fst tr" b r s1] show ?thesis
    by (simp add: serve_def deleted_id_def)
next
  case (PutUser id_param b)
  with assms put_route_ids [of s lib "fst tr" id_param b r s1] show ?thesis
    by (simp add: serve_def created_id_def deleted_id_def)
next
  case (DeleteUser id_param)
  with assms delete_handler_ids [of s id_param r s1] show ?thesis
    by (simp add: serve_def created_id_def)
qed

lemma run_ids:
  assumes "ids_below s" and "run lib s trs = (rs, s')"
  shows "length rs = length trs \<and> nextId s \<le> nextId s' \<and>
     (\<forall>j < length trs. \<forall>k. created_id (snd (trs ! j)) (rs ! j) = Some k \<longrightarrow>
        nextId s \<le> k \<and>
        (\<forall>i < j. \<forall>k'. created_id (snd (trs ! i)) (rs ! i) = Some k' \<or>
                       deleted_id (snd (trs ! i)) (rs ! i) = Some k' \<longrightarrow> k' < k))"
  using assms
proof (induction trs arbitrary: s rs s')
  case Nil
  then show ?case by simp
next
  case (Cons tr trs)
  obtain r s1 where sv: "serve lib s tr = (r, s1)" by (cases "serve lib s tr")
  obtain rs1 s2 where rn: "run lib s1 trs = (rs1, s2)" by (cases "run lib s1 trs")
  from Cons.prems(2) sv rn have rs: "rs = r # rs1" and s': "s' = s2" by auto
  note one = serve_ids [OF Cons.prems(1) sv]
  from one have inv1: "ids_below s1" by simp
  note rest = Cons.IH [OF inv1 rn]
  have len: "length rs = length (tr # trs)" using rest rs by simp
  have mono: "nextId s \<le> nextId s'" using one rest s' by simp
  have main: "\<forall>j < length (tr # trs). \<forall>k. created_id (snd ((tr # trs) ! j)) (rs ! j) = Some k \<longrightarrow>
        nextId s \<le> k \<and>
        (\<forall>i < j. \<forall>k'. created_id (snd ((tr # trs) ! i)) (rs ! i) = Some k' \<or>
                       deleted_id (snd ((tr # trs) ! i)) (rs ! i) = Some k' \<longrightarrow> k' < k)"
  proof (intro allI impI)
    fix j k
    assume j: "j < length (tr # trs)"
      and c: "created_id (snd ((tr # trs) ! j)) (rs ! j) = Some k"
    show "nextId s \<le> k \<and>
        (\<forall>i < j. \<forall>k'. created_id (snd ((tr # trs) ! i)) (rs ! i) = Some k' \<or>
                       deleted_id (snd ((tr # trs) ! i)) (rs ! i) = Some k' \<longrightarrow> k' < k)"
    proof (cases j)
      case 0
      with c rs one show ?thesis by simp
    next
      case (Suc j')
      with j have j': "j' < length trs" by simp
      from c Suc rs have c': "created_id (snd (trs ! j')) (rs1 ! j') = Some k" by simp
      from rest j' c' have k1: "nextId s1 \<le> k"
        and prev: "\<forall>i < j'. \<forall>k'. created_id (snd (trs ! i)) (rs1 ! i) = Some k' \<or>
                       deleted_id (snd (trs ! i)) (rs1 ! i) = Some k' \<longrightarrow> k' < k"
        by blast+
      have "\<forall>i < j. \<forall>k'. created_id (snd ((tr # trs) ! i)) (rs ! i) = Some k' \<or>
                       deleted_id (snd ((tr # trs) ! i)) (rs ! i) = Some k' \<longrightarrow> k' < k"
      proof (intro allI impI)
        fix i k'
        assume i: "i < j"
          and e: "created_id (snd ((tr # trs) ! i)) (rs ! i) = Some k' \<or>
                  deleted_id (snd ((tr # trs) ! i)) (rs ! i) = Some k'"
        show "k' < k"
        proof (cases i)
          case 0
          with e rs have "created_id (snd tr) r = Some k' \<or> deleted_id (snd tr) r = Some k'"
            by simp
          with one have "k' < nextId s1" by blast
          with k1 show ?thesis by simp
        next
          case (Suc i')
          with i \<open>j = Suc j'\<close> have "i' < j'" by simp
          moreover from e Suc rs
          have "created_id (snd (trs ! i')) (rs1 ! i') = Some k' \<or>
                deleted_id (snd (trs ! i')) (rs1 ! i') = Some k'" by simp
          ultimately show ?thesis using prev by blast
        qed
      qed
      moreover from one k1 have "nextId s \<le> k" by simp
      ultimately show ?thesis by simp
    qed
  qed
  from len mono main show ?case by (intro conjI)
qed

lemma ids_below_initial: "ids_below initial_store"
  by (simp add: ids_below_def initial_store_def)

subsection \<open>The caching client\<close>





lemma mutation_issued:
  "fst (createUser net d) = Inr r \<Longrightarrow> snd (createUser net d)"
  "fst (updateUser net i d) = Inr r \<Longrightarrow> snd (updateUser net i d)"
  "fst (deleteUser net i) = Inr r \<Longrightarrow> snd (deleteUser net i)"
  by (auto simp: createUser_def updateUser_def deleteUser_def split: option.splits if_splits)


lemma invalidating_out:
  "invalidating outcome c = (out, c1, issued) \<Longrightarrow> out = fst outcome"
  by (auto simp: invalidating_def split: prod.splits sum.splits)




section \<open>C1: a duplicate address is answered 409 and changes nothing\<close>




section \<open>C2: what a failed validation reports\<close>

text \<open>
  C2, as the code has it. The client's \<^verbatim>\<open>validateUserData\<close> reports one violation, that
  of the first violated rule in the order name, email, role, and \<^verbatim>\<open>createUser\<close> and
  \<^verbatim>\<open>updateUser\<close> fail with status 400 and exactly that one violation. The server's
  400 response carries the whole error list of the validator chains: one entry for each
  field whose rule is violated, in the order name, email, role.
\<close>

theorem validation_violations:
  "map_option fst (validateUserData d p) =
     (if client_name_violated p (name d) then Some ''name''
      else if client_email_violated p (email d) then Some ''email''
      else if client_role_violated (role d) then Some ''role''
      else None) \<and>
   (validateUserData d False = Some v \<longrightarrow>
      createUser net d = (Inl (validation_error v), False)) \<and>
   (validateUserData d True = Some v \<and> \<not> bad_id i \<longrightarrow>
      updateUser net i d = (Inl (validation_error v), False)) \<and>
   error_status (validation_error v) = 400 \<and>
   error_details (validation_error v) = Some [v] \<and>
   map fst (server_validation lib p d) =
     (if server_name_violated p (name d) then [''name''] else []) @
     (if server_email_violated lib p (email d) then [''email''] else []) @
     (if server_role_violated (role d) then [''role''] else []) \<and>
   (post_validation lib d \<noteq> [] \<longrightarrow>
      post_route lib now s d = (Response 400 False (ValidationFailed (post_validation lib d)), s)) \<and>
   (put_validation lib d \<noteq> [] \<longrightarrow>
      put_route lib now s id_param d
        = (Response 400 False (ValidationFailed (put_validation lib d)), s))"
proof -
  have a: "map_option fst (validateUserData d p) =
     (if client_name_violated p (name d) then Some ''name''
      else if client_email_violated p (email d) then Some ''email''
      else if client_role_violated (role d) then Some ''role''
      else None)"
    by (simp add: validateUserData_cases)
  have b: "validateUserData d False = Some v \<longrightarrow>
      createUser net d = (Inl (validation_error v), False)"
    by (simp add: createUser_def)
  have c: "validateUserData d True = Some v \<and> \<not> bad_id i \<longrightarrow>
      updateUser net i d = (Inl (validation_error v), False)"
    by (simp add: updateUser_def)
  have e: "error_status (validation_error v) = 400" "error_details (validation_error v) = Some [v]"
    by (simp_all add: validation_error_def)
  have f: "post_validation lib d \<noteq> [] \<longrightarrow>
      post_route lib now s d = (Response 400 False (ValidationFailed (post_validation lib d)), s)"
    by (simp add: post_route_def handleValidationErrors_def)
  have g: "put_validation lib d \<noteq> [] \<longrightarrow>
      put_route lib now s id_param d
        = (Response 400 False (ValidationFailed (put_validation lib d)), s)"
    by (simp add: put_route_def handleValidationErrors_def)
  from a b c e server_validation_fields [of lib p d] f g show ?thesis by (intro conjI)
qed

text \<open>
  C2, an instance: the body of the repository's own test for invalid data. The client
  reports the name alone; the server answers 400 with three violations.
\<close>

theorem validation_violations_witness:
  "validateUserData
      \<lparr>name = JStr ''A'', email = JStr ''invalid-email'', role = JStr ''invalid-role''\<rparr> False
     = Some (''name'', ''Name must be between 2 and 50 characters'') \<and>
   createUser (Inr (0::nat))
      \<lparr>name = JStr ''A'', email = JStr ''invalid-email'', role = JStr ''invalid-role''\<rparr>
     = (Inl (validation_error (''name'', ''Name must be between 2 and 50 characters'')), False) \<and>
   post_validation regex_lib
      \<lparr>name = JStr ''A'', email = JStr ''invalid-email'', role = JStr ''invalid-role''\<rparr> \<noteq> [] \<and>
   map fst (post_validation regex_lib
      \<lparr>name = JStr ''A'', email = JStr ''invalid-email'', role = JStr ''invalid-role''\<rparr>)
     = [''name'', ''email'', ''role''] \<and>
   status (fst (post_route regex_lib ''t1'' initial_store
      \<lparr>name = JStr ''A'', email = JStr ''invalid-email'', role = JStr ''invalid-role''\<rparr>)) = 400"
proof -
  let ?d = "\<lparr>name = JStr ''A'', email = JStr ''invalid-email'', role = JStr ''invalid-role''\<rparr>"
  have v: "validateUserData ?d False = Some (''name'', ''Name must be between 2 and 50 characters'')"
    by (simp add: validateUserData_def truthy_def name_length_bad_def js_trim_def is_ws_def)
  have sv: "server_validation regex_lib False ?d = post_validation regex_lib ?d"
    by (simp add: server_validation_def)
  have viol: "server_name_violated False (name ?d)" "server_email_violated regex_lib False (email ?d)"
    "server_role_violated (role ?d)"
    by (simp_all add: server_name_violated_def server_email_violated_def server_role_violated_def
        ev_toString_def js_String_def js_trim_def is_ws_def regex_lib_def regex_no_at)
  note t = validation_violations [of ?d False "(''name'', ''Name must be between 2 and 50 characters'')"
      "Inr (0::nat)" "JNum 1" regex_lib "''t1''" initial_store "''1''"]
  from t v have c: "createUser (Inr (0::nat)) ?d
      = (Inl (validation_error (''name'', ''Name must be between 2 and 50 characters'')), False)"
    by blast
  from t sv viol have m: "map fst (post_validation regex_lib ?d) = [''name'', ''email'', ''role'']"
    by simp
  then have ne: "post_validation regex_lib ?d \<noteq> []" by auto
  with t have "post_route regex_lib ''t1'' initial_store ?d
      = (Response 400 False (ValidationFailed (post_validation regex_lib ?d)), initial_store)"
    by blast
  then have st: "status (fst (post_route regex_lib ''t1'' initial_store ?d)) = 400" by simp
  from v c ne m st show ?thesis by (intro conjI)
qed

text \<open>
  C2 as the specification words it fails on the server: a PUT with a one-character name and
  an unknown role (and no email, so that the library is not consulted) is answered 400
  with two violations, not one.
\<close>

theorem server_reports_several_violations:
  "fst (put_route regex_lib ''t1'' initial_store ''2''
      \<lparr>name = JStr ''A'', email = JUndefined, role = JStr ''superuser''\<rparr>)
     = Response 400 False
         (ValidationFailed
            [(''name'', ''Name must be between 2 and 50 characters''),
             (''role'', ''Role must be either user or admin'')])"
  by (simp add: put_route_def put_validation_def name_chain_def email_chain_def role_chain_def
      isLength_def js_trim_def is_ws_def ev_toString_def js_String_def handleValidationErrors_def)

section \<open>C3: expiry of a cache entry\<close>

text \<open>
  C3, as the code has it: for an entry written at time \<open>t0\<close>, \<^verbatim>\<open>get\<close> returns the stored
  value and leaves the cache as it is exactly when \<open>now - t0 \<le> ttl\<close>; when
  \<open>now - t0 > ttl\<close> it removes the entry and reports a miss. The comparison in the code is
  strict, so an entry whose age equals the time-to-live is still served.
\<close>

theorem cache_get_expiry:
  "cache c key = Some \<lparr>item_value = v, timestamp = t0\<rparr> \<Longrightarrow>
     (now - t0 \<le> ttl c \<longrightarrow> cache_get now key c = (Some v, c)) \<and>
     (now - t0 > ttl c \<longrightarrow>
        fst (cache_get now key c) = None \<and>
        cache (snd (cache_get now key c)) = (cache c)(key := None) \<and>
        ttl (snd (cache_get now key c)) = ttl c)"
  by (simp add: cache_get_def)

text \<open>
  C3, an instance: an entry written at time 1000 under a time-to-live of 1000 is served at
  time 1500 and is a miss at time 2100.
\<close>

theorem cache_get_expiry_witness:
  "cache (cache_set 1000 ''k'' (7::nat) (new_ApiCache 1000)) ''k''
     = Some \<lparr>item_value = 7, timestamp = 1000\<rparr> \<and>
   cache_get 1500 ''k'' (cache_set 1000 ''k'' (7::nat) (new_ApiCache 1000))
     = (Some 7, cache_set 1000 ''k'' 7 (new_ApiCache 1000)) \<and>
   fst (cache_get 2100 ''k'' (cache_set 1000 ''k'' (7::nat) (new_ApiCache 1000))) = None"
  using cache_get_expiry [of "cache_set 1000 ''k'' (7::nat) (new_ApiCache 1000)" "''k''" 7 1000 1500]
        cache_get_expiry [of "cache_set 1000 ''k'' (7::nat) (new_ApiCache 1000)" "''k''" 7 1000 2100]
  by (simp add: cache_set_def new_ApiCache_def)

text \<open>
  C3 as the specification words it fails at the boundary: an entry read at an age exactly
  equal to the time-to-live (written at 1000, read at 2000, time-to-live 1000) is returned,
  not evicted.
\<close>

theorem cache_get_at_ttl_is_hit:
  "cache_get 2000 ''k'' (cache_set 1000 ''k'' (7::nat) (new_ApiCache 1000))
     = (Some 7, cache_set 1000 ''k'' 7 (new_ApiCache 1000))"
  by (simp add: cache_get_def cache_set_def new_ApiCache_def)

section \<open>C4: client-side and server-side validation\<close>

text \<open>
  C4, as the code has it. For a payload whose name is a string, \<^verbatim>\<open>null\<close> or absent,
  and whose email the library's \<^verbatim>\<open>isEmail\<close> and the client's pattern judge alike (or
  is absent in an update), the client accepts the payload exactly when the server does, in
  create mode and in update mode alike.
\<close>

theorem client_server_agree:
  assumes "name d = JUndefined \<or> name d = JNull \<or> (\<exists>s. name d = JStr s)"
    and "(p \<and> email d = JUndefined) \<or>
         (isEmail lib (ev_toString (email d)) \<longleftrightarrow> emailRegex_test (ev_toString (email d)))"
  shows "validateUserData d p = None \<longleftrightarrow> server_validation lib p d = []"
proof -
  have "server_validation lib p d = [] \<longleftrightarrow> map fst (server_validation lib p d) = []"
    by simp
  also have "\<dots> \<longleftrightarrow> \<not> server_name_violated p (name d) \<and>
      \<not> server_email_violated lib p (email d) \<and> \<not> server_role_violated (role d)"
    by (simp add: server_validation_fields)
  also have "\<dots> \<longleftrightarrow> \<not> client_name_violated p (name d) \<and>
      \<not> client_email_violated p (email d) \<and> \<not> client_role_violated (role d)"
    using name_rules_agree [OF assms(1), of p] email_rules_agree [OF assms(2)]
      role_rules_agree [of "role d"] by simp
  also have "\<dots> \<longleftrightarrow> validateUserData d p = None"
    by (simp add: validateUserData_cases)
  finally show ?thesis by simp
qed

text \<open>
  C4, an instance: a well-formed create payload is accepted by the client and by the
  server.
\<close>

theorem client_server_agree_witness:
  "validateUserData
      \<lparr>name = JStr ''John Doe'', email = JStr ''john@example.com'', role = JStr ''user''\<rparr> False
     = None \<and>
   server_validation regex_lib False
      \<lparr>name = JStr ''John Doe'', email = JStr ''john@example.com'', role = JStr ''user''\<rparr> = []"
proof -
  let ?d = "\<lparr>name = JStr ''John Doe'', email = JStr ''john@example.com'', role = JStr ''user''\<rparr>"
  have n: "name ?d = JUndefined \<or> name ?d = JNull \<or> (\<exists>s. name ?d = JStr s)"
    by simp
  have e: "(False \<and> email ?d = JUndefined) \<or>
      (isEmail regex_lib (ev_toString (email ?d)) \<longleftrightarrow> emailRegex_test (ev_toString (email ?d)))"
    by (simp add: regex_lib_def)
  have c: "validateUserData ?d False = None"
    by (simp add: validateUserData_def truthy_def name_length_bad_def js_trim_def is_ws_def
        js_String_def emailRegex_test_def)
  with client_server_agree [OF n e] show ?thesis by simp
qed

text \<open>
  C4 as the specification words it fails: an update payload whose name is the number 12345
  is rejected by the client, which insists on a string, and accepted by the server, whose
  validators see the string \<^verbatim>\<open>12345\<close>. The email is absent, so the library is not
  consulted.
\<close>

theorem numeric_name_client_rejects_server_accepts:
  "validateUserData \<lparr>name = JNum 12345, email = JUndefined, role = JUndefined\<rparr> True
     = Some (''name'', ''Name must be between 2 and 50 characters'') \<and>
   server_validation regex_lib True \<lparr>name = JNum 12345, email = JUndefined, role = JUndefined\<rparr> = []"
  by (simp add: validateUserData_def name_length_bad_def server_validation_def
      put_validation_def name_chain_def email_chain_def role_chain_def isLength_def
      ev_toString_def js_String_def show_int_def show_nat.simps digit_char_def js_trim_def
      is_ws_def)

section \<open>C5: identifiers are fresh and never reused\<close>

text \<open>
  C5: in every run of requests from the seed store, the identifier returned by a
  successful create is greater than the identifier of every seed record, greater than the
  identifier returned by every earlier successful create, and greater than the identifier
  of every record removed by an earlier successful delete; so a removed identifier is
  never assigned again.
\<close>

theorem created_ids_fresh:
  assumes "run lib initial_store trs = (rs, s')"
  shows "\<forall>j < length trs. \<forall>k. created_id (snd (trs ! j)) (rs ! j) = Some k \<longrightarrow>
           (\<forall>u \<in> set (users initial_store). user_id u < k) \<and>
           (\<forall>i < j. \<forall>k'. created_id (snd (trs ! i)) (rs ! i) = Some k' \<or>
                          deleted_id (snd (trs ! i)) (rs ! i) = Some k' \<longrightarrow> k' < k)"
proof (intro allI impI)
  fix j k
  assume j: "j < length trs" and c: "created_id (snd (trs ! j)) (rs ! j) = Some k"
  from run_ids [OF ids_below_initial assms] j c
  have lo: "nextId initial_store \<le> k"
    and prev: "\<forall>i < j. \<forall>k'. created_id (snd (trs ! i)) (rs ! i) = Some k' \<or>
                          deleted_id (snd (trs ! i)) (rs ! i) = Some k' \<longrightarrow> k' < k"
    by blast+
  from lo ids_below_initial have "\<forall>u \<in> set (users initial_store). user_id u < k"
    by (auto simp: ids_below_def)
  with prev show "(\<forall>u \<in> set (users initial_store). user_id u < k) \<and>
           (\<forall>i < j. \<forall>k'. created_id (snd (trs ! i)) (rs ! i) = Some k' \<or>
                          deleted_id (snd (trs ! i)) (rs ! i) = Some k' \<longrightarrow> k' < k)"
    by simp
qed

text \<open>
  C5, an instance: the run that creates a record (identifier 3), deletes it and creates
  another one. The second create returns 4, not the freed 3.
\<close>

theorem created_ids_fresh_witness:
  "map status (fst (run regex_lib initial_store sample_run)) = [201, 200, 201] \<and>
   created_id (snd (sample_run ! 0)) (fst (run regex_lib initial_store sample_run) ! 0) = Some 3 \<and>
   deleted_id (snd (sample_run ! 1)) (fst (run regex_lib initial_store sample_run) ! 1) = Some 3 \<and>
   created_id (snd (sample_run ! 2)) (fst (run regex_lib initial_store sample_run) ! 2) = Some 4 \<and>
   user_id (users initial_store ! 1) < 4 \<and> (3::int) < 4"
proof -
  let ?rs = "fst (run regex_lib initial_store sample_run)"
  have rs: "map (\<lambda>r. (status r, case payload r of UserData u \<Rightarrow> user_id u | _ \<Rightarrow> 0)) ?rs
      = [(201, 3), (200, 3), (201, 4)]"
    by (simp add: sample_run_def serve_def post_route_def post_validation_def name_chain_def
        email_chain_def role_chain_def isLength_def js_trim_def is_ws_def ev_toString_def
        js_String_def regex_lib_def emailRegex_test_def handleValidationErrors_def
        post_handler_def post_sanitized_def opt_field_def initial_store_def delete_handler_def
        parseInt_def is_digit_def digit_value_def digits_value_def Let_def)
  then obtain r0 r1 r2 where l: "?rs = [r0, r1, r2]"
    and r0: "status r0 = 201" "(case payload r0 of UserData u \<Rightarrow> user_id u | _ \<Rightarrow> 0) = 3"
    and r1: "status r1 = 200" "(case payload r1 of UserData u \<Rightarrow> user_id u | _ \<Rightarrow> 0) = 3"
    and r2: "status r2 = 201" "(case payload r2 of UserData u \<Rightarrow> user_id u | _ \<Rightarrow> 0) = 4"
    by auto
  have st: "map status ?rs = [201, 200, 201]" using l r0 r1 r2 by simp
  have c0: "created_id (snd (sample_run ! 0)) (?rs ! 0) = Some 3"
    using l r0 by (auto simp: sample_run_def created_id_def split: payload.splits)
  have d1: "deleted_id (snd (sample_run ! 1)) (?rs ! 1) = Some 3"
    using l r1 by (auto simp: sample_run_def deleted_id_def split: payload.splits)
  have c2: "created_id (snd (sample_run ! 2)) (?rs ! 2) = Some 4"
    using l r2 by (auto simp: sample_run_def created_id_def split: payload.splits)
  have len: "2 < length sample_run" by (simp add: sample_run_def)
  have "run regex_lib initial_store sample_run = (?rs, snd (run regex_lib initial_store sample_run))"
    by simp
  from created_ids_fresh [OF this] len c2
  have seeds: "\<forall>u \<in> set (users initial_store). user_id u < 4"
    and earlier: "\<forall>i < 2. \<forall>k'. created_id (snd (sample_run ! i)) (?rs ! i) = Some k' \<or>
                          deleted_id (snd (sample_run ! i)) (?rs ! i) = Some k' \<longrightarrow> k' < 4"
    by blast+
  have "users initial_store ! 1 \<in> set (users initial_store)"
    by (simp add: initial_store_def)
  with seeds have s1: "user_id (users initial_store ! 1) < 4" by blast
  from earlier d1 have lt: "(3::int) < 4" by simp
  from st c0 d1 c2 s1 lt show ?thesis by (intro conjI)
qed

section \<open>C6: GET /users/:id\<close>



section \<open>C7: cache hits and invalidation in the caching client\<close>



section \<open>C8: GET /users, role filter and limit\<close>

text \<open>
  C8, as the code has it. The response is 200; its data is the filtered list cut by the
  limit, \<open>total\<close> is the length of the filtered list and \<open>returned\<close> the length of
  the data. With a non-empty role parameter \<open>x\<close> the filtered list is the stored records
  whose role is \<open>x\<close>, so every returned record has that role and \<open>total\<close> counts the
  stored records with that role. With no role parameter, or with an empty one, nothing is
  filtered. A limit that parses to \<open>n \<ge> 0\<close> keeps the first \<open>n\<close> records; with no
  limit parameter the first 50 are kept, so at most 50 are returned.
\<close>

theorem get_users_filter_limit:
  "status (get_users s role_q limit_q) = 200 \<and>
   data (payload (get_users s role_q limit_q)) = limitedUsers s role_q limit_q \<and>
   total (payload (get_users s role_q limit_q)) = length (filteredUsers s role_q) \<and>
   returned (payload (get_users s role_q limit_q)) = length (limitedUsers s role_q limit_q) \<and>
   (x \<noteq> [] \<longrightarrow>
      filteredUsers s (Some x) = filter (\<lambda>u. user_role u = x) (users s) \<and>
      (\<forall>u \<in> set (limitedUsers s (Some x) limit_q). user_role u = x)) \<and>
   filteredUsers s None = users s \<and>
   filteredUsers s (Some []) = users s \<and>
   (parseInt l = Some n \<and> 0 \<le> n \<longrightarrow>
      limitedUsers s role_q (Some l) = take (nat n) (filteredUsers s role_q)) \<and>
   limitedUsers s role_q None = take 50 (filteredUsers s role_q) \<and>
   length (limitedUsers s role_q None) \<le> 50"
proof -
  have a: "x \<noteq> [] \<longrightarrow>
      filteredUsers s (Some x) = filter (\<lambda>u. user_role u = x) (users s) \<and>
      (\<forall>u \<in> set (limitedUsers s (Some x) limit_q). user_role u = x)"
    using limitedUsers_subset [of s "Some x" limit_q] by (auto simp: filteredUsers_def)
  have b: "parseInt l = Some n \<and> 0 \<le> n \<longrightarrow>
      limitedUsers s role_q (Some l) = take (nat n) (filteredUsers s role_q)"
    by (simp add: limitedUsers_def slice0_def)
  have c: "limitedUsers s role_q None = take 50 (filteredUsers s role_q)"
    by (simp add: limitedUsers_def slice0_def)
  have d: "length (limitedUsers s role_q None) \<le> 50"
    by (simp add: c)
  have e: "filteredUsers s None = users s" "filteredUsers s (Some []) = users s"
    by (simp_all add: filteredUsers_def)
  have f: "status (get_users s role_q limit_q) = 200"
    "data (payload (get_users s role_q limit_q)) = limitedUsers s role_q limit_q"
    "total (payload (get_users s role_q limit_q)) = length (filteredUsers s role_q)"
    "returned (payload (get_users s role_q limit_q)) = length (limitedUsers s role_q limit_q)"
    by (simp_all add: get_users_def)
  from a b c d e f show ?thesis by (intro conjI)
qed

text \<open>
  C8, an instance on the seed store: \<^verbatim>\<open>?role=admin&limit=1\<close> returns the one admin
  record with \<open>total = 1\<close> and \<open>returned = 1\<close>, and \<^verbatim>\<open>?limit=1\<close> returns the first
  record.
\<close>

theorem get_users_filter_limit_witness:
  "''admin'' \<noteq> [] \<and>
   data (payload (get_users initial_store (Some ''admin'') (Some ''1''))) = [users initial_store ! 0] \<and>
   total (payload (get_users initial_store (Some ''admin'') (Some ''1''))) = 1 \<and>
   returned (payload (get_users initial_store (Some ''admin'') (Some ''1''))) = 1 \<and>
   parseInt ''1'' = Some 1 \<and>
   limitedUsers initial_store None (Some ''1'') = take 1 (users initial_store)"
  using get_users_filter_limit [of initial_store "Some ''admin''" "Some ''1''" "''admin''" "''1''" 1]
    get_users_filter_limit [of initial_store None "Some ''1''" "''admin''" "''1''" 1]
  by (simp add: parseInt_def is_ws_def is_digit_def digit_value_def digits_value_def
      initial_store_def filteredUsers_def)

text \<open>
  C8 as the specification words it fails for a role parameter that is present but empty
  (\<^verbatim>\<open>GET /users?role=\<close>): on the seed store both records are returned, with roles
  admin and user and \<open>total = 2\<close>, although no stored record has the empty role.
\<close>

theorem get_users_empty_role_unfiltered:
  "map user_role (data (payload (get_users initial_store (Some '''') None))) = [''admin'', ''user''] \<and>
   total (payload (get_users initial_store (Some '''') None)) = 2"
  by (simp add: get_users_def limitedUsers_def filteredUsers_def initial_store_def slice0_def)

section \<open>C9: what a successful PUT changes\<close>

text \<open>
  C9: when PUT /users/:id is answered 200, the returned record \<open>u'\<close> replaces the record
  at one position \<open>i\<close> of the collection, the first one whose id is the parsed id. Its id
  and \<open>createdAt\<close> are those of the old record, \<open>updatedAt\<close> is the time of the request,
  and each of name, email and role is the old value when the body does not have the field
  and the (trimmed, normalised) value of the body when it has. Every other record, the
  length of the collection and the next-id counter are unchanged.
\<close>

theorem put_route_frame:
  assumes "put_route lib now s id_param b = (r, s')" and "status r = 200"
  shows "\<exists>i u'. i < length (users s) \<and>
      parseInt id_param = Some (user_id (users s ! i)) \<and>
      findIndex (\<lambda>u. user_id u = user_id (users s ! i)) (users s) = Some i \<and>
      r = Response 200 True (UserData u') \<and>
      users s' = (users s)[i := u'] \<and>
      nextId s' = nextId s \<and>
      user_id u' = user_id (users s ! i) \<and>
      createdAt u' = createdAt (users s ! i) \<and>
      updatedAt u' = Some now \<and>
      user_name u' = (if name b = JUndefined then user_name (users s ! i)
                      else js_trim (ev_toString (name b))) \<and>
      user_email u' = (if email b = JUndefined then user_email (users s ! i)
                       else normalizeEmail lib (ev_toString (email b))) \<and>
      user_role u' = (if role b = JUndefined then user_role (users s ! i)
                      else ev_toString (role b)) \<and>
      (\<forall>j < length (users s). j \<noteq> i \<longrightarrow> users s' ! j = users s ! j) \<and>
      length (users s') = length (users s)"
proof -
  have h: "put_handler now s id_param (put_sanitized lib b) = (r, s')"
  proof (cases "handleValidationErrors (put_validation lib b)")
    case None
    with assms(1) show ?thesis by (simp add: put_route_def)
  next
    case (Some r0)
    with assms(1) have "r = r0" by (simp add: put_route_def)
    with handleValidationErrors_status [OF Some] assms(2) show ?thesis by simp
  qed
  from put_handler_200 [OF h assms(2)] obtain i where
    i: "i < length (users s)" "parseInt id_param = Some (user_id (users s ! i))"
       "findIndex (\<lambda>u. user_id u = user_id (users s ! i)) (users s) = Some i"
       "r = Response 200 True (UserData (merge_patch now (put_sanitized lib b) (users s ! i)))"
       "s' = s\<lparr>users := (users s)[i := merge_patch now (put_sanitized lib b) (users s ! i)]\<rparr>"
    by blast
  define u' where "u' = merge_patch now (put_sanitized lib b) (users s ! i)"
  have fields: "user_id u' = user_id (users s ! i)" "createdAt u' = createdAt (users s ! i)"
      "updatedAt u' = Some now"
      "user_name u' = (if name b = JUndefined then user_name (users s ! i)
                      else js_trim (ev_toString (name b)))"
      "user_email u' = (if email b = JUndefined then user_email (users s ! i)
                       else normalizeEmail lib (ev_toString (email b)))"
      "user_role u' = (if role b = JUndefined then user_role (users s ! i)
                      else ev_toString (role b))"
    by (simp_all add: u'_def merge_patch_def put_sanitized_def opt_field_def)
  have others: "\<forall>j < length (users s). j \<noteq> i \<longrightarrow> users s' ! j = users s ! j"
    using i(5) by simp
  have st: "users s' = (users s)[i := u']" "nextId s' = nextId s" "length (users s') = length (users s)"
    using i(5) by (simp_all add: u'_def)
  from i(1,2,3) i(4) [folded u'_def] st fields others show ?thesis by blast
qed

text \<open>
  C9, an instance: the update of the repository's test, a new name for seed record 2.
  Record 1 and the counter stay as they were, record 2 keeps its id, email and role.
\<close>

theorem put_route_frame_witness:
  "status (fst (put_route regex_lib ''t1'' initial_store ''2''
      \<lparr>name = JStr ''Updated Name'', email = JUndefined, role = JUndefined\<rparr>)) = 200 \<and>
   snd (put_route regex_lib ''t1'' initial_store ''2''
      \<lparr>name = JStr ''Updated Name'', email = JUndefined, role = JUndefined\<rparr>)
     = \<lparr>users = [users initial_store ! 0,
                 (users initial_store ! 1)\<lparr>user_name := ''Updated Name'', updatedAt := Some ''t1''\<rparr>],
        nextId = 3\<rparr> \<and>
   length (users (snd (put_route regex_lib ''t1'' initial_store ''2''
      \<lparr>name = JStr ''Updated Name'', email = JUndefined, role = JUndefined\<rparr>))) = 2"
proof -
  let ?b = "\<lparr>name = JStr ''Updated Name'', email = JUndefined, role = JUndefined\<rparr>"
  let ?res = "put_route regex_lib ''t1'' initial_store ''2'' ?b"
  have ev: "?res =
      (Response 200 True
         (UserData ((users initial_store ! 1)\<lparr>user_name := ''Updated Name'', updatedAt := Some ''t1''\<rparr>)),
       \<lparr>users = [users initial_store ! 0,
                 (users initial_store ! 1)\<lparr>user_name := ''Updated Name'', updatedAt := Some ''t1''\<rparr>],
        nextId = 3\<rparr>)"
    by (simp add: put_route_def put_validation_def name_chain_def email_chain_def role_chain_def
        isLength_def js_trim_def is_ws_def ev_toString_def js_String_def
        handleValidationErrors_def put_handler_def parseInt_2 initial_store_def put_sanitized_def
        opt_field_def merge_patch_def Let_def)
  then have st: "status (fst ?res) = 200" by simp
  have "?res = (fst ?res, snd ?res)" by simp
  from put_route_frame [OF this st]
  have "length (users (snd ?res)) = length (users initial_store)" by blast
  then have len: "length (users (snd ?res)) = 2" by (simp add: initial_store_def)
  from st ev len show ?thesis by simp
qed

section \<open>C10: GET /users with a limit that is not a number\<close>

text \<open>
  C10: when the supplied limit parses to \<^verbatim>\<open>NaN\<close>, as \<^verbatim>\<open>abc\<close> does, the response is
  200 with \<open>success\<close> true, the data is the empty list, \<open>returned\<close> is 0 and \<open>total\<close>
  is the number of records left by the role filter.
\<close>

theorem get_users_nan_limit:
  "parseInt l = None \<Longrightarrow>
   get_users s role_q (Some l) = Response 200 True (UserList [] (length (filteredUsers s role_q)) 0)"
  by (simp add: get_users_def limitedUsers_def slice0_def)

text \<open>
  C10, an instance on the seed store: \<^verbatim>\<open>?role=admin&limit=abc\<close> returns no record,
  with \<open>total = 1\<close> and \<open>returned = 0\<close>.
\<close>

theorem get_users_nan_limit_witness:
  "parseInt ''abc'' = None \<and>
   get_users initial_store (Some ''admin'') (Some ''abc'') = Response 200 True (UserList [] 1 0)"
  using get_users_nan_limit [of "''abc''" initial_store "Some ''admin''"]
  by (simp add: parseInt_abc initial_store_def filteredUsers_def)

end
